theory Spec2Isabelle
  imports Complex_Main "HOL-Library.Word"
begin

section \<open>Strings\<close>

text \<open>
  A TypeScript string is a sequence of UTF-16 code units, and \<open>.length\<close> counts code
  units. String literals of the source are ASCII and are written through \<open>js\<close>.
\<close>

type_synonym jsstring = "16 word list"

definition js :: "string \<Rightarrow> jsstring" where
  "js s = map of_char s"

text \<open>
  \<open>String.prototype.trim\<close> removes WhiteSpace and LineTerminator code units from both
  ends: TAB, LF, VT, FF, CR, SP, NBSP, U+1680, U+2000..U+200A, U+2028, U+2029, U+202F,
  U+205F, U+3000 and U+FEFF.
\<close>

definition isWhiteSpace :: "16 word \<Rightarrow> bool" where
  "isWhiteSpace c \<longleftrightarrow>
     c = 0x0009 \<or> c = 0x000A \<or> c = 0x000B \<or> c = 0x000C \<or> c = 0x000D \<or> c = 0x0020 \<or>
     c = 0x00A0 \<or> c = 0x1680 \<or> (0x2000 \<le> c \<and> c \<le> 0x200A) \<or> c = 0x2028 \<or>
     c = 0x2029 \<or> c = 0x202F \<or> c = 0x205F \<or> c = 0x3000 \<or> c = 0xFEFF"

definition trim :: "jsstring \<Rightarrow> jsstring" where
  "trim s = rev (dropWhile isWhiteSpace (rev (dropWhile isWhiteSpace s)))"

text \<open>\<open>s.includes(t)\<close>: \<open>t\<close> occurs in \<open>s\<close> as a contiguous run of code units.\<close>

fun includes_js :: "jsstring \<Rightarrow> jsstring \<Rightarrow> bool" where
  "includes_js [] t = (t = [])"
| "includes_js (c # s) t = (take (length t) (c # s) = t \<or> includes_js s t)"

section \<open>Data model\<close>

text \<open>The user document returned by \<open>authComponent.getAuthUser\<close> (type \<open>AuthUser\<close>).\<close>

record AuthUser =
  user_id :: jsstring
  user_name :: "jsstring option"
  user_email :: "jsstring option"
  user_role :: "jsstring option"

text \<open>A document of the \<open>messages\<close> table of convex/schema.ts, with its system fields.\<close>

type_synonym msg_id = nat

record message =
  doc_id :: msg_id
  creationTime :: nat
  content :: jsstring
  authorId :: "jsstring option"
  authorName :: "jsstring option"
  createdAt :: "nat option"

datatype RateLimitName =
  sendMessage | uploadFile | deleteFile | apiCall | loginAttempt | registerUser | sendEmail

datatype error = Error string

text \<open>What the gate answers: the call is admitted, or rejected with the time to wait.\<close>

datatype verdict = Admitted | Rejected nat

datatype kind = token_bucket

record rate_limit_def =
  kind :: kind
  rate :: nat
  period :: nat
  capacity :: nat

text \<open>\<open>RATE_LIMIT_DEFS\<close> of convex/lib/services/rateLimitService.ts.\<close>

fun RATE_LIMIT_DEFS :: "RateLimitName \<Rightarrow> rate_limit_def" where
  "RATE_LIMIT_DEFS sendMessage =
     \<lparr>kind = token_bucket, rate = 10, period = 60000, capacity = 15\<rparr>"
| "RATE_LIMIT_DEFS uploadFile =
     \<lparr>kind = token_bucket, rate = 5, period = 60000, capacity = 10\<rparr>"
| "RATE_LIMIT_DEFS deleteFile =
     \<lparr>kind = token_bucket, rate = 20, period = 60000, capacity = 25\<rparr>"
| "RATE_LIMIT_DEFS apiCall =
     \<lparr>kind = token_bucket, rate = 60, period = 60000, capacity = 80\<rparr>"
| "RATE_LIMIT_DEFS loginAttempt =
     \<lparr>kind = token_bucket, rate = 5, period = 60000, capacity = 5\<rparr>"
| "RATE_LIMIT_DEFS registerUser =
     \<lparr>kind = token_bucket, rate = 3, period = 3600000, capacity = 3\<rparr>"
| "RATE_LIMIT_DEFS sendEmail =
     \<lparr>kind = token_bucket, rate = 10, period = 3600000, capacity = 10\<rparr>"

definition RateLimitNames :: "RateLimitName list" where
  "RateLimitNames =
     [sendMessage, uploadFile, deleteFile, apiCall, loginAttempt, registerUser, sendEmail]"

section \<open>Request context and state\<close>

text \<open>
  What one invocation receives from the platform: the outcome of
  \<open>authComponent.getAuthUser(ctx)\<close> for this request (it throws, or returns a user or
  null), the platform clock in milliseconds, and the \<open>ADMIN_EMAILS\<close> constant of
  convex/lib/config.ts.
\<close>

datatype auth_outcome = Throws error | Returns "AuthUser option"

record ctx =
  auth :: auth_outcome
  now :: nat
  ADMIN_EMAILS :: "jsstring list"

text \<open>
  The calls a handler makes to its collaborators, in the order it makes them; a call to
  the gate is recorded with the verdict it returned.
\<close>

datatype call =
  GetAuthUser
| Limit RateLimitName jsstring verdict
| DbInsert msg_id
| DbGet msg_id
| DbDelete msg_id
| ConsoleLog jsstring

record bucket =
  tokens :: rat
  ts :: nat

record world =
  messages :: "message list"
  nextId :: msg_id
  limiter :: "RateLimitName \<times> jsstring \<Rightarrow> bucket option"
  calls :: "call list"

definition logCall :: "call \<Rightarrow> world \<Rightarrow> world" where
  "logCall c w = w\<lparr>calls := calls w @ [c]\<rparr>"

section \<open>Collaborators\<close>

definition getAuthUser :: "ctx \<Rightarrow> world \<Rightarrow> (error + AuthUser option) \<times> world" where
  "getAuthUser c w =
     (case auth c of Throws e \<Rightarrow> (Inl e, logCall GetAuthUser w)
                   | Returns u \<Rightarrow> (Inr u, logCall GetAuthUser w))"

text \<open>
  Modelled from the spec: the token bucket of the rate-limiter component behind
  \<open>rateLimiter.limit\<close> is not part of the sources. Tokens replenish continuously at
  \<open>rate\<close> tokens per \<open>period\<close> milliseconds, capped at the capacity. Token counts are
  exact rationals here, where the component computes with floating-point numbers.
\<close>

definition refill :: "rate_limit_def \<Rightarrow> bucket \<Rightarrow> nat \<Rightarrow> rat" where
  "refill d b t =
     min (of_nat (capacity d))
         (tokens b + of_nat (t - ts b) * of_nat (rate d) / of_nat (period d))"

text \<open>
  Modelled from the spec: a rejected call reports when to retry; this is the time, in
  milliseconds rounded up, until the bucket holds one token again.
\<close>

definition retryAfter :: "rate_limit_def \<Rightarrow> rat \<Rightarrow> nat" where
  "retryAfter d v = nat \<lceil>(1 - v) * of_nat (period d) / of_nat (rate d)\<rceil>"

text \<open>
  Modelled from the spec: \<open>admit(operationName, key) -> Admitted | Rejected(retryAfter)\<close>.
  Each (operation, key) pair owns a bucket that starts full at the capacity; an admitted
  call consumes exactly one token; a call that finds less than one token is rejected and
  consumes nothing. The verdict is the value the call returns: \<open>rateLimiter.limit\<close> is
  called without the option that would make a rejection throw.
\<close>

definition limit :: "ctx \<Rightarrow> RateLimitName \<Rightarrow> jsstring \<Rightarrow> world \<Rightarrow> verdict \<times> world" where
  "limit c name key w =
     (let d = RATE_LIMIT_DEFS name;
          b = (case limiter w (name, key) of
                 None \<Rightarrow> \<lparr>tokens = of_nat (capacity d), ts = now c\<rparr>
               | Some b \<Rightarrow> b);
          v = refill d b (now c)
      in if 1 \<le> v
         then (Admitted,
               logCall (Limit name key Admitted)
                 (w\<lparr>limiter := (limiter w)((name, key) \<mapsto> \<lparr>tokens = v - 1, ts = now c\<rparr>)\<rparr>))
         else (Rejected (retryAfter d v),
               logCall (Limit name key (Rejected (retryAfter d v))) w))"

text \<open>
  The document store: \<open>ctx.db.insert\<close> gives the document a fresh id and the current
  time as its creation time, \<open>ctx.db.get\<close> looks a document up by id, \<open>ctx.db.delete\<close>
  removes it.
\<close>

definition db_insert ::
  "ctx \<Rightarrow> jsstring \<Rightarrow> jsstring option \<Rightarrow> jsstring option \<Rightarrow> world \<Rightarrow> msg_id \<times> world" where
  "db_insert c cont aid aname w =
     (let i = nextId w;
          m = \<lparr>doc_id = i, creationTime = now c, content = cont, authorId = aid,
                authorName = aname, createdAt = None\<rparr>
      in (i, logCall (DbInsert i) (w\<lparr>messages := messages w @ [m], nextId := Suc i\<rparr>)))"

definition db_get :: "msg_id \<Rightarrow> world \<Rightarrow> message option \<times> world" where
  "db_get i w = (find (\<lambda>m. doc_id m = i) (messages w), logCall (DbGet i) w)"

definition db_delete :: "msg_id \<Rightarrow> world \<Rightarrow> world" where
  "db_delete i w = logCall (DbDelete i) (w\<lparr>messages := filter (\<lambda>m. doc_id m \<noteq> i) (messages w)\<rparr>)"

text \<open>
  \<open>ctx.db.query('messages').order('desc')\<close>: the documents of the table by creation
  time, newest first.
\<close>

definition query_desc :: "world \<Rightarrow> message list" where
  "query_desc w = rev (sort_key creationTime (messages w))"

section \<open>convex/messages.ts\<close>

definition list :: "ctx \<Rightarrow> world \<Rightarrow> message list \<times> world" where
  "list c w = (take 50 (query_desc w), w)"

text \<open>\<open>const rateLimitKey = user?._id || 'anonymous'\<close>: an empty string is falsy.\<close>

definition rateLimitKey :: "AuthUser option \<Rightarrow> jsstring" where
  "rateLimitKey user =
     (case user of
        None \<Rightarrow> js ''anonymous''
      | Some u \<Rightarrow> if user_id u = [] then js ''anonymous'' else user_id u)"

text \<open>\<open>user?.name ?? 'Anonymous'\<close>: only null and undefined give the default.\<close>

definition authorNameOf :: "AuthUser option \<Rightarrow> jsstring" where
  "authorNameOf user =
     (case user of
        None \<Rightarrow> js ''Anonymous''
      | Some u \<Rightarrow> (case user_name u of None \<Rightarrow> js ''Anonymous'' | Some n \<Rightarrow> n))"

text \<open>
  The handler of \<open>send\<close>. The value of \<open>await rateLimiter.limit(...)\<close> is not bound and
  not tested, so the handler goes on to the insert whatever the gate answered.
\<close>

definition send :: "ctx \<Rightarrow> jsstring \<Rightarrow> world \<Rightarrow> (error + msg_id) \<times> world" where
  "send c cont w =
     (let trimmed = trim cont in
      if length trimmed = 0 then (Inl (Error ''Message cannot be empty''), w)
      else if length trimmed > 2000
        then (Inl (Error ''Message too long (max 2000 characters)''), w)
      else
        (case getAuthUser c w of (r, w1) \<Rightarrow>
           let user = (case r of Inl e \<Rightarrow> None | Inr u \<Rightarrow> u) in
           (case limit c sendMessage (rateLimitKey user) w1 of (v, w2) \<Rightarrow>
              (case db_insert c trimmed (map_option user_id user)
                      (Some (authorNameOf user)) w2 of
                 (i, w3) \<Rightarrow> (Inr i, w3)))))"

text \<open>
  Modelled from the spec: \<open>requireAuth\<close> of convex/lib/authHelpers.ts is not part of the
  sources. It resolves the caller and fails when there is none; an error of the lookup
  itself is passed on. The text of its own error message is not known.
\<close>

definition requireAuth :: "ctx \<Rightarrow> world \<Rightarrow> (error + AuthUser) \<times> world" where
  "requireAuth c w =
     (case getAuthUser c w of
        (Inl e, w1) \<Rightarrow> (Inl e, w1)
      | (Inr None, w1) \<Rightarrow> (Inl (Error ''Authentication required''), w1)
      | (Inr (Some u), w1) \<Rightarrow> (Inr u, w1))"

text \<open>
  The test of the \<open>isAdmin\<close> query of convex/users.ts: the email is on the
  \<open>ADMIN_EMAILS\<close> list, or the role is \<open>ROLES.ADMIN\<close>.
\<close>

definition isAdminUser :: "ctx \<Rightarrow> AuthUser \<Rightarrow> bool" where
  "isAdminUser c u \<longleftrightarrow>
     (case user_email u of
        None \<Rightarrow> False
      | Some e \<Rightarrow> e \<noteq> [] \<and> e \<in> set (ADMIN_EMAILS c))
     \<or> user_role u = Some (js ''admin'')"

text \<open>
  Modelled from the spec: \<open>requireAdmin\<close> of convex/lib/authHelpers.ts is not part of
  the sources. It is \<open>requireAuth\<close>, failing also when the caller is not an
  administrator. The text of its error message is not known.
\<close>

definition requireAdmin :: "ctx \<Rightarrow> world \<Rightarrow> (error + AuthUser) \<times> world" where
  "requireAdmin c w =
     (case requireAuth c w of
        (Inl e, w1) \<Rightarrow> (Inl e, w1)
      | (Inr u, w1) \<Rightarrow>
          if isAdminUser c u then (Inr u, w1) else (Inl (Error ''Admin access required''), w1))"

definition remove :: "ctx \<Rightarrow> msg_id \<Rightarrow> world \<Rightarrow> (error + unit) \<times> world" where
  "remove c i w =
     (case requireAuth c w of
        (Inl e, w1) \<Rightarrow> (Inl e, w1)
      | (Inr user, w1) \<Rightarrow>
          (case db_get i w1 of
             (None, w2) \<Rightarrow> (Inl (Error ''Message not found''), w2)
           | (Some m, w2) \<Rightarrow>
               if authorId m \<noteq> Some (user_id user)
               then (Inl (Error ''Not authorized to delete this message''), w2)
               else (Inr (), db_delete i w2)))"

definition deleteAny :: "ctx \<Rightarrow> msg_id \<Rightarrow> world \<Rightarrow> (error + unit) \<times> world" where
  "deleteAny c i w =
     (case requireAdmin c w of
        (Inl e, w1) \<Rightarrow> (Inl e, w1)
      | (Inr user, w1) \<Rightarrow>
          (case db_get i w1 of
             (None, w2) \<Rightarrow> (Inl (Error ''Message not found''), w2)
           | (Some m, w2) \<Rightarrow> (Inr (), db_delete i w2)))"

section \<open>convex/users.ts\<close>

record admin_result =
  success :: bool
  email :: jsstring
  action :: jsstring
  instruction :: jsstring

definition instruction_for :: "jsstring \<Rightarrow> bool \<Rightarrow> jsstring" where
  "instruction_for e isAdmin =
     (if isAdmin
      then js ''Add '' @ [0x22] @ e @ [0x22] @ js '' to ADMIN_EMAILS in convex/lib/config.ts''
      else js ''Remove '' @ [0x22] @ e @ [0x22] @
           js '' from ADMIN_EMAILS in convex/lib/config.ts'')"

definition setAdminByEmail ::
  "ctx \<Rightarrow> jsstring \<Rightarrow> bool \<Rightarrow> world \<Rightarrow> (error + admin_result) \<times> world" where
  "setAdminByEmail c e isAdmin w =
     (if e = [] \<or> \<not> includes_js e (js ''@'') then (Inl (Error ''Invalid email address''), w)
      else
        let act = (if isAdmin then js ''grant'' else js ''revoke'');
            ins = instruction_for e isAdmin;
            w1 = logCall (ConsoleLog (js ''[ADMIN] '' @ act @ js '' admin for '' @ e @ js '': '' @ ins)) w
        in (Inr \<lparr>success = True, email = e, action = act, instruction = ins\<rparr>, w1))"

section \<open>Sequences of requests\<close>

text \<open>A caller's requests, handled one after the other, each in its own context.\<close>

fun send_all :: "(ctx \<times> jsstring) list \<Rightarrow> world \<Rightarrow> (error + msg_id) list \<times> world" where
  "send_all [] w = ([], w)"
| "send_all ((c, s) # rs) w =
     (case send c s w of (r, w1) \<Rightarrow>
        (case send_all rs w1 of (out, w2) \<Rightarrow> (r # out, w2)))"

text \<open>\<open>n\<close> calls to the gate at one instant, for one operation and key.\<close>

fun limit_times :: "nat \<Rightarrow> ctx \<Rightarrow> RateLimitName \<Rightarrow> jsstring \<Rightarrow> world \<Rightarrow> verdict list \<times> world" where
  "limit_times 0 c name key w = ([], w)"
| "limit_times (Suc n) c name key w =
     (case limit c name key w of (r, w1) \<Rightarrow>
        (case limit_times n c name key w1 of (out, w2) \<Rightarrow> (r # out, w2)))"

text \<open>The verdicts of the gate calls of a log, in order.\<close>

fun verdicts :: "call list \<Rightarrow> verdict list" where
  "verdicts [] = []"
| "verdicts (Limit name key v # cs) = v # verdicts cs"
| "verdicts (x # cs) = verdicts cs"

text \<open>A bucket is full when it was never used or holds as many tokens as its capacity.\<close>

definition bucket_full :: "world \<Rightarrow> RateLimitName \<Rightarrow> jsstring \<Rightarrow> bool" where
  "bucket_full w name key \<longleftrightarrow>
     (case limiter w (name, key) of
        None \<Rightarrow> True
      | Some b \<Rightarrow> tokens b = of_nat (capacity (RATE_LIMIT_DEFS name)))"

section \<open>Derived notions\<close>

text \<open>
  The principal that the \<open>try\<close>/\<open>catch\<close> around \<open>getAuthUser\<close> in \<open>send\<close> leaves
  in \<open>user\<close>: none when the lookup throws.
\<close>

definition resolve :: "ctx \<Rightarrow> AuthUser option" where
  "resolve c = (case auth c of Throws e \<Rightarrow> None | Returns u \<Rightarrow> u)"

text \<open>
  The bucket a call finds, the tokens it finds there after the refill (\<open>available\<close>),
  and the tokens the bucket holds whatever the time of the next call (\<open>reserve\<close>).
\<close>

definition bucket_of :: "ctx \<Rightarrow> world \<Rightarrow> RateLimitName \<Rightarrow> jsstring \<Rightarrow> bucket" where
  "bucket_of c w name key =
     (case limiter w (name, key) of
        None \<Rightarrow> \<lparr>tokens = of_nat (capacity (RATE_LIMIT_DEFS name)), ts = now c\<rparr>
      | Some b \<Rightarrow> b)"

definition available :: "ctx \<Rightarrow> world \<Rightarrow> RateLimitName \<Rightarrow> jsstring \<Rightarrow> rat" where
  "available c w name key = refill (RATE_LIMIT_DEFS name) (bucket_of c w name key) (now c)"

definition reserve :: "world \<Rightarrow> RateLimitName \<Rightarrow> jsstring \<Rightarrow> rat" where
  "reserve w name key =
     (case limiter w (name, key) of
        None \<Rightarrow> of_nat (capacity (RATE_LIMIT_DEFS name))
      | Some b \<Rightarrow> min (of_nat (capacity (RATE_LIMIT_DEFS name))) (tokens b))"

section \<open>Example inputs\<close>

definition empty_world :: world where
  "empty_world = \<lparr>messages = [], nextId = 0, limiter = (\<lambda>k. None), calls = []\<rparr>"

definition anonymous_ctx :: ctx where
  "anonymous_ctx = \<lparr>auth = Returns None, now = 0, ADMIN_EMAILS = []\<rparr>"

definition failing_auth_ctx :: ctx where
  "failing_auth_ctx = \<lparr>auth = Throws (Error ''Unauthenticated''), now = 0, ADMIN_EMAILS = []\<rparr>"

definition u1 :: AuthUser where
  "u1 = \<lparr>user_id = js ''u1'', user_name = Some (js ''Ada''), user_email = None, user_role = None\<rparr>"

text \<open>
  A state in which the sendMessage bucket of u1 was emptied at time 0, as fifteen
  immediate sends leave it.
\<close>

definition drained :: world where
  "drained = \<lparr>messages = [], nextId = 15,
     limiter = (\<lambda>k. None)((sendMessage, js ''u1'') \<mapsto> \<lparr>tokens = 0, ts = 0\<rparr>), calls = []\<rparr>"

definition ctx_of :: "AuthUser \<Rightarrow> nat \<Rightarrow> ctx" where
  "ctx_of u t = \<lparr>auth = Returns (Some u), now = t, ADMIN_EMAILS = []\<rparr>"

definition board :: world where
  "board = \<lparr>messages =
       [\<lparr>doc_id = 0, creationTime = 5, content = js ''first'', authorId = Some (js ''u2''),
         authorName = Some (js ''Bob''), createdAt = None\<rparr>,
        \<lparr>doc_id = 1, creationTime = 7, content = js ''second'', authorId = None,
         authorName = Some (js ''Anonymous''), createdAt = None\<rparr>],
     nextId = 2, limiter = (\<lambda>k. None), calls = []\<rparr>"

definition eleven_sends :: "(ctx \<times> jsstring) list" where
  "eleven_sends = map (\<lambda>i. (ctx_of u1 (i * 5000), js ''hello'')) [0..<11]"

definition crowd :: world where
  "crowd = \<lparr>messages =
       map (\<lambda>i. \<lparr>doc_id = i, creationTime = 100 + i, content = js ''hello'', authorId = None,
                 authorName = Some (js ''Anonymous''), createdAt = None\<rparr>) [0..<51],
     nextId = 51, limiter = (\<lambda>k. None), calls = []\<rparr>"

section \<open>The rate-limit gate\<close>

lemma limit_unfold:
  "limit c name key w =
     (if 1 \<le> available c w name key
      then (Admitted,
            w\<lparr>limiter := (limiter w)((name, key) \<mapsto>
                \<lparr>tokens = available c w name key - 1, ts = now c\<rparr>),
              calls := calls w @ [Limit name key Admitted]\<rparr>)
      else (Rejected (retryAfter (RATE_LIMIT_DEFS name) (available c w name key)),
            w\<lparr>calls := calls w @
              [Limit name key
                 (Rejected (retryAfter (RATE_LIMIT_DEFS name) (available c w name key)))]\<rparr>))"
  by (simp add: limit_def available_def bucket_of_def logCall_def Let_def)

lemma refill_bounds:
  "min (of_nat (capacity d)) (tokens b) \<le> refill d b t"
  "refill d b t \<le> of_nat (capacity d)"
  "tokens b = of_nat (capacity d) \<Longrightarrow> refill d b t = of_nat (capacity d)"
proof -
  define g :: rat where "g = of_nat (t - ts b) * of_nat (rate d) / of_nat (period d)"
  have g: "0 \<le> g" unfolding g_def by simp
  have r: "refill d b t = min (of_nat (capacity d)) (tokens b + g)"
    unfolding g_def refill_def by (rule refl)
  show "min (of_nat (capacity d)) (tokens b) \<le> refill d b t"
    using g unfolding r by linarith
  show "refill d b t \<le> of_nat (capacity d)"
    unfolding r by linarith
  show "tokens b = of_nat (capacity d) \<Longrightarrow> refill d b t = of_nat (capacity d)"
    using g unfolding r by linarith
qed

lemma available_le_capacity:
  "available c w name key \<le> of_nat (capacity (RATE_LIMIT_DEFS name))"
  by (simp add: available_def refill_bounds(2))

lemma available_calls [simp]: "available c (w\<lparr>calls := x\<rparr>) name key = available c w name key"
  by (simp add: available_def bucket_of_def)

lemma reserve_le_available: "reserve w name key \<le> available c w name key"
proof (cases "limiter w (name, key)")
  case None
  then show ?thesis
    by (simp add: reserve_def available_def bucket_of_def refill_bounds(3))
next
  case (Some b)
  then show ?thesis
    using refill_bounds(1) [of "RATE_LIMIT_DEFS name" b "now c"]
    by (simp add: reserve_def available_def bucket_of_def)
qed

lemma available_full:
  "bucket_full w name key \<Longrightarrow> available c w name key = of_nat (capacity (RATE_LIMIT_DEFS name))"
  by (cases "limiter w (name, key)")
     (simp_all add: bucket_full_def available_def bucket_of_def refill_bounds(3))

lemma reserve_full:
  "bucket_full w name key \<Longrightarrow> reserve w name key = of_nat (capacity (RATE_LIMIT_DEFS name))"
  by (auto simp: bucket_full_def reserve_def split: option.splits)

lemma available_limiter:
  "limiter w' = limiter w \<Longrightarrow> available c w' name key = available c w name key"
  by (simp add: available_def bucket_of_def)

lemma reserve_limiter:
  "limiter w' = limiter w \<Longrightarrow> reserve w' name key = reserve w name key"
  by (simp add: reserve_def)

lemma limit_auth [simp]: "limit (c\<lparr>auth := a\<rparr>) name key w = limit c name key w"
  by (simp add: limit_unfold available_def bucket_of_def split: option.splits)

lemma limit_calls:
  "fst (limit c name key (w\<lparr>calls := x\<rparr>)) = fst (limit c name key w)"
  "limiter (snd (limit c name key (w\<lparr>calls := x\<rparr>))) = limiter (snd (limit c name key w))"
  by (simp_all add: limit_unfold)

lemma send_unfold:
  "send c s w =
     (if length (trim s) = 0 then (Inl (Error ''Message cannot be empty''), w)
      else if 2000 < length (trim s)
        then (Inl (Error ''Message too long (max 2000 characters)''), w)
      else (Inr (nextId w),
            \<lparr>messages = messages w @
               [\<lparr>doc_id = nextId w, creationTime = now c, content = trim s,
                 authorId = map_option user_id (resolve c),
                 authorName = Some (authorNameOf (resolve c)), createdAt = None\<rparr>],
             nextId = Suc (nextId w),
             limiter = limiter (snd (limit c sendMessage (rateLimitKey (resolve c)) w)),
             calls = calls w @
               [GetAuthUser,
                Limit sendMessage (rateLimitKey (resolve c))
                  (fst (limit c sendMessage (rateLimitKey (resolve c)) w)),
                DbInsert (nextId w)]\<rparr>))"
  by (simp add: send_def getAuthUser_def resolve_def limit_unfold logCall_def db_insert_def Let_def
        split: auth_outcome.splits)

lemma available_empty_world [simp]:
  "available c empty_world name key = of_nat (capacity (RATE_LIMIT_DEFS name))"
  by (simp add: available_full bucket_full_def empty_world_def)

lemma trim_hello [simp]: "trim (js ''hello'') = js ''hello''"
  by (simp add: trim_def js_def isWhiteSpace_def)

lemma trim_blank [simp]: "trim (js ''   '') = []"
  by (simp add: trim_def js_def isWhiteSpace_def)

lemma length_js [simp]: "length (js s) = length s"
  by (simp add: js_def)

section \<open>Trimming\<close>

lemma trim_spec:
  "\<exists>l r. s = l @ trim s @ r \<and> (\<forall>x\<in>set l. isWhiteSpace x) \<and> (\<forall>x\<in>set r. isWhiteSpace x) \<and>
     (trim s \<noteq> [] \<longrightarrow> \<not> isWhiteSpace (hd (trim s)) \<and> \<not> isWhiteSpace (last (trim s)))"
proof -
  let ?P = isWhiteSpace
  let ?m = "dropWhile ?P s"
  have 1: "s = takeWhile ?P s @ ?m" by simp
  have 2: "?m = trim s @ rev (takeWhile ?P (rev ?m))"
    unfolding trim_def by (metis rev_append rev_rev_ident takeWhile_dropWhile_id)
  have 3: "\<forall>x\<in>set (takeWhile ?P s). ?P x" by (auto dest: set_takeWhileD)
  have 4: "\<forall>x\<in>set (rev (takeWhile ?P (rev ?m))). ?P x" by (auto dest: set_takeWhileD)
  have 5: "\<not> ?P (last (trim s))" if "trim s \<noteq> []"
  proof -
    from that have "dropWhile ?P (rev ?m) \<noteq> []" by (simp add: trim_def)
    then have "\<not> ?P (hd (dropWhile ?P (rev ?m)))" by (rule hd_dropWhile)
    with that show ?thesis by (simp add: trim_def last_rev)
  qed
  have 6: "\<not> ?P (hd (trim s))" if "trim s \<noteq> []"
  proof -
    have ne: "?m \<noteq> []"
    proof
      assume "?m = []"
      then have "trim s = []" by (metis trim_def dropWhile.simps(1) rev.simps(1))
      with that show False by simp
    qed
    then have h: "\<not> ?P (hd ?m)" by (rule hd_dropWhile)
    from 2 that have "hd ?m = hd (trim s)" by (metis hd_append2)
    with h show ?thesis by simp
  qed
  from 1 2 have "s = takeWhile ?P s @ trim s @ rev (takeWhile ?P (rev ?m))" by simp
  with 3 4 5 6 show ?thesis by blast
qed

lemma trim_no_whitespace_ends:
  "s \<noteq> [] \<Longrightarrow> \<not> isWhiteSpace (hd s) \<Longrightarrow> \<not> isWhiteSpace (last s) \<Longrightarrow> trim s = s"
proof -
  assume s: "s \<noteq> []" and h: "\<not> isWhiteSpace (hd s)" and l: "\<not> isWhiteSpace (last s)"
  from s h have fr: "dropWhile isWhiteSpace s = s"
    by (cases s) simp_all
  from s l have bk: "dropWhile isWhiteSpace (rev s) = rev s"
    by (cases s rule: rev_cases) simp_all
  show ?thesis
    by (simp add: trim_def fr bk)
qed

lemma trim_replicate_a [simp]: "0 < n \<Longrightarrow> trim (replicate n (0x61 :: 16 word)) = replicate n 0x61"
  by (rule trim_no_whitespace_ends) (simp_all add: isWhiteSpace_def)

section \<open>Failing mutations\<close>

lemma includes_js_single: "includes_js s [x] \<longleftrightarrow> x \<in> set s"
  by (induction s) auto

lemma includes_at: "includes_js s (js ''@'') \<longleftrightarrow> 0x40 \<in> set s"
  by (simp add: js_def includes_js_single)

lemma requireAuth_messages [simp]: "messages (snd (requireAuth c w)) = messages w"
  by (simp add: requireAuth_def getAuthUser_def logCall_def split: auth_outcome.splits option.splits)

lemma requireAdmin_messages [simp]: "messages (snd (requireAdmin c w)) = messages w"
proof -
  have "messages (snd (requireAdmin c w)) = messages (snd (requireAuth c w))"
    by (cases "requireAuth c w" rule: prod.exhaust; cases "fst (requireAuth c w)")
       (auto simp: requireAdmin_def)
  then show ?thesis by simp
qed

lemma send_fail_messages: "fst (send c s w) = Inl x \<Longrightarrow> messages (snd (send c s w)) = messages w"
  by (simp add: send_unfold split: if_splits)

lemma remove_fail_messages:
  "fst (remove c i w) = Inl x \<Longrightarrow> messages (snd (remove c i w)) = messages w"
proof -
  obtain r w1 where ra: "requireAuth c w = (r, w1)" by (cases "requireAuth c w")
  then have m: "messages w1 = messages w"
    using requireAuth_messages [of c w] by simp
  assume "fst (remove c i w) = Inl x"
  with ra m show ?thesis
    by (cases r) (auto simp: remove_def db_get_def logCall_def split: option.splits if_splits)
qed

lemma deleteAny_fail_messages:
  "fst (deleteAny c i w) = Inl x \<Longrightarrow> messages (snd (deleteAny c i w)) = messages w"
proof -
  obtain r w1 where ra: "requireAdmin c w = (r, w1)" by (cases "requireAdmin c w")
  then have m: "messages w1 = messages w"
    using requireAdmin_messages [of c w] by simp
  assume "fst (deleteAny c i w) = Inl x"
  with ra m show ?thesis
    by (cases r) (auto simp: deleteAny_def db_get_def logCall_def split: option.splits if_splits)
qed

lemma remove_not_author:
  assumes "auth c = Returns (Some u)"
    and "find (\<lambda>m. doc_id m = i) (messages w) = Some m"
    and "authorId m \<noteq> Some (user_id u)"
  shows "fst (remove c i w) = Inl (Error ''Not authorized to delete this message'')"
  using assms
  by (simp add: remove_def requireAuth_def getAuthUser_def db_get_def logCall_def)

section \<open>Consecutive calls\<close>

lemma limit_admitted:
  assumes "1 \<le> available c w name key"
  shows "fst (limit c name key w) = Admitted"
    and "available c (snd (limit c name key w)) name key = available c w name key - 1"
    and "reserve (snd (limit c name key w)) name key = available c w name key - 1"
proof -
  let ?v = "available c w name key"
  have le: "?v - 1 \<le> of_nat (capacity (RATE_LIMIT_DEFS name))"
    using available_le_capacity [of c w name key] by linarith
  show "fst (limit c name key w) = Admitted"
    using assms by (simp add: limit_unfold)
  show "available c (snd (limit c name key w)) name key = ?v - 1"
    using assms le
    by (simp add: limit_unfold)
       (simp add: available_def [of c "w\<lparr>limiter := X\<rparr>" for X] bucket_of_def refill_def)
  show "reserve (snd (limit c name key w)) name key = ?v - 1"
    using assms le by (simp add: limit_unfold reserve_def)
qed

lemma limit_rejected:
  assumes "\<not> 1 \<le> available c w name key"
  shows "fst (limit c name key w) =
           Rejected (retryAfter (RATE_LIMIT_DEFS name) (available c w name key))"
    and "limiter (snd (limit c name key w)) = limiter w"
  using assms by (simp_all add: limit_unfold)

lemma limit_times_exact:
  "available c w name key = of_nat m \<Longrightarrow>
   fst (limit_times (Suc m) c name key w) =
     replicate m Admitted @ [Rejected (retryAfter (RATE_LIMIT_DEFS name) 0)]"
proof (induction m arbitrary: w)
  case 0
  then have "\<not> 1 \<le> available c w name key" by simp
  from limit_rejected(1) [OF this] 0 show ?case
    by (cases "limit c name key w") simp
next
  case (Suc m)
  then have a: "1 \<le> available c w name key" by simp
  obtain r w1 where l: "limit c name key w = (r, w1)" by (cases "limit c name key w")
  from limit_admitted(1,2) [OF a] l Suc.prems
  have r: "r = Admitted" and v: "available c w1 name key = of_nat m" by simp_all
  from Suc.IH [OF v] l r show ?case
    by (cases "limit_times (Suc m) c name key w1") simp
qed

lemma limit_times_full:
  "bucket_full w name key \<Longrightarrow>
   fst (limit_times (Suc (capacity (RATE_LIMIT_DEFS name))) c name key w) =
     replicate (capacity (RATE_LIMIT_DEFS name)) Admitted @
     [Rejected (retryAfter (RATE_LIMIT_DEFS name) 0)]"
  using available_full [of w name key c] by (rule limit_times_exact)

lemma upt_shift: "[a ..< a + Suc n] = a # [Suc a ..< Suc a + n]"
  by (simp add: upt_rec [of a])

lemma verdicts_append: "verdicts (xs @ ys) = verdicts xs @ verdicts ys"
  by (induction xs rule: verdicts.induct) simp_all

lemma send_valid:
  assumes "0 < length (trim s)" and "length (trim s) \<le> 2000"
  shows "fst (send c s w) = Inr (nextId w)"
    and "nextId (snd (send c s w)) = Suc (nextId w)"
    and "limiter (snd (send c s w)) =
           limiter (snd (limit c sendMessage (rateLimitKey (resolve c)) w))"
    and "verdicts (calls (snd (send c s w))) =
           verdicts (calls w) @ [fst (limit c sendMessage (rateLimitKey (resolve c)) w)]"
    and "length (messages (snd (send c s w))) = Suc (length (messages w))"
  using assms by (simp_all add: send_unfold verdicts_append)

lemma send_all_Cons:
  "fst (send_all ((c, s) # rs) w) = fst (send c s w) # fst (send_all rs (snd (send c s w)))"
  "snd (send_all ((c, s) # rs) w) = snd (send_all rs (snd (send c s w)))"
  by (simp_all split: prod.splits)

lemma send_all_ids:
  "(\<forall>(c, s)\<in>set rs. 0 < length (trim s) \<and> length (trim s) \<le> 2000) \<Longrightarrow>
   fst (send_all rs w) = map Inr [nextId w ..< nextId w + length rs] \<and>
   length (messages (snd (send_all rs w))) = length (messages w) + length rs"
proof (induction rs arbitrary: w)
  case Nil
  then show ?case by simp
next
  case (Cons x rs)
  obtain c s where x: "x = (c, s)" by (cases x)
  from Cons.prems x have s: "0 < length (trim s)" "length (trim s) \<le> 2000" by simp_all
  let ?w1 = "snd (send c s w)"
  from Cons.IH [of ?w1] Cons.prems
  have ih: "fst (send_all rs ?w1) = map Inr [nextId ?w1 ..< nextId ?w1 + length rs]"
    and il: "length (messages (snd (send_all rs ?w1))) = length (messages ?w1) + length rs"
    by simp_all
  have "fst (send_all (x # rs) w) =
          Inr (nextId w) # map Inr [Suc (nextId w) ..< Suc (nextId w) + length rs]"
    unfolding x send_all_Cons ih send_valid(1,2) [OF s] by (rule refl)
  also have "\<dots> = map Inr [nextId w ..< nextId w + length (x # rs)]"
    unfolding length_Cons upt_shift by simp
  finally have 1: "fst (send_all (x # rs) w) = map Inr [nextId w ..< nextId w + length (x # rs)]" .
  have 2: "length (messages (snd (send_all (x # rs) w))) = length (messages w) + length (x # rs)"
    unfolding x send_all_Cons il send_valid(5) [OF s] by simp
  from 1 2 show ?case by simp
qed

lemma send_all_burst:
  assumes "0 < length (trim s)" and "length (trim s) \<le> 2000"
  shows "available c w sendMessage (rateLimitKey (resolve c)) = of_nat m \<Longrightarrow>
     verdicts (calls (snd (send_all (replicate (Suc m) (c, s)) w))) =
       verdicts (calls w) @ replicate m Admitted @ [Rejected 6000]"
proof (induction m arbitrary: w)
  case 0
  then have "\<not> 1 \<le> available c w sendMessage (rateLimitKey (resolve c))" by simp
  from limit_rejected(1) [OF this] 0
  have "fst (limit c sendMessage (rateLimitKey (resolve c)) w) = Rejected 6000"
    by (simp add: retryAfter_def)
  with send_valid(4) [OF assms, of c w] show ?case
    by (cases "send c s w") simp
next
  case (Suc m)
  let ?k = "rateLimitKey (resolve c)"
  let ?w1 = "snd (send c s w)"
  from Suc.prems have a: "1 \<le> available c w sendMessage ?k" by simp
  have "available c ?w1 sendMessage ?k = available c (snd (limit c sendMessage ?k w)) sendMessage ?k"
    by (rule available_limiter) (rule send_valid(3) [OF assms])
  with limit_admitted(2) [OF a] Suc.prems
  have v: "available c ?w1 sendMessage ?k = of_nat m" by simp
  have c1: "verdicts (calls ?w1) = verdicts (calls w) @ [Admitted]"
    using send_valid(4) [OF assms, of c w] limit_admitted(1) [OF a] by simp
  have "verdicts (calls (snd (send_all (replicate (Suc (Suc m)) (c, s)) w))) =
          verdicts (calls (snd (send_all (replicate (Suc m) (c, s)) ?w1)))"
    unfolding replicate_Suc [of "Suc m"] send_all_Cons by (rule refl)
  also have "\<dots> = (verdicts (calls w) @ [Admitted]) @ replicate m Admitted @ [Rejected 6000]"
    unfolding Suc.IH [OF v] c1 by (rule refl)
  also have "\<dots> = verdicts (calls w) @ replicate (Suc m) Admitted @ [Rejected 6000]"
    by simp
  finally show ?case .
qed

lemma send_all_within_reserve:
  "(\<forall>(c, s)\<in>set rs. rateLimitKey (resolve c) = k \<and> 0 < length (trim s) \<and> length (trim s) \<le> 2000) \<Longrightarrow>
   of_nat (length rs) \<le> reserve w sendMessage k \<Longrightarrow>
   verdicts (calls (snd (send_all rs w))) = verdicts (calls w) @ replicate (length rs) Admitted"
proof (induction rs arbitrary: w)
  case Nil
  then show ?case by simp
next
  case (Cons x rs)
  obtain c s where x: "x = (c, s)" by (cases x)
  from Cons.prems(1) x have k: "rateLimitKey (resolve c) = k"
    and s: "0 < length (trim s)" "length (trim s) \<le> 2000" by simp_all
  let ?w1 = "snd (send c s w)"
  from Cons.prems(2) have "1 + of_nat (length rs) \<le> reserve w sendMessage k" by simp
  with reserve_le_available [of w sendMessage k c]
  have a: "1 + of_nat (length rs) \<le> available c w sendMessage k" by linarith
  have "(0::rat) \<le> of_nat (length rs)" by simp
  with a have a1: "1 \<le> available c w sendMessage k" by linarith
  have "reserve ?w1 sendMessage k = reserve (snd (limit c sendMessage k w)) sendMessage k"
    by (rule reserve_limiter) (use send_valid(3) [OF s, of c w] k in simp)
  with limit_admitted(3) [OF a1]
  have v: "reserve ?w1 sendMessage k = available c w sendMessage k - 1" by simp
  from v a have r: "of_nat (length rs) \<le> reserve ?w1 sendMessage k" by linarith
  have c1: "verdicts (calls ?w1) = verdicts (calls w) @ [Admitted]"
    using send_valid(4) [OF s, of c w] limit_admitted(1) [OF a1] k by simp
  from Cons.IH [OF _ r] Cons.prems(1)
  have ih: "verdicts (calls (snd (send_all rs ?w1))) =
      verdicts (calls ?w1) @ replicate (length rs) Admitted" by simp
  have "verdicts (calls (snd (send_all (x # rs) w))) =
      (verdicts (calls w) @ [Admitted]) @ replicate (length rs) Admitted"
    unfolding x send_all_Cons ih c1 by (rule refl)
  also have "\<dots> = verdicts (calls w) @ replicate (length (x # rs)) Admitted"
    by simp
  finally show ?case .
qed

lemma js_eq_Nil [simp]: "js s = [] \<longleftrightarrow> s = []"
  by (simp add: js_def)

lemma key_u1 [simp]: "rateLimitKey (Some u1) = js ''u1''"
  by (simp add: rateLimitKey_def u1_def)

lemma eleven_sends_ok:
  "\<forall>(c, s)\<in>set eleven_sends.
     rateLimitKey (resolve c) = js ''u1'' \<and> 0 < length (trim s) \<and> length (trim s) \<le> 2000"
  by (auto simp: eleven_sends_def resolve_def ctx_of_def)

lemma reserve_empty_world [simp]:
  "reserve empty_world name key = of_nat (capacity (RATE_LIMIT_DEFS name))"
  by (simp add: reserve_def empty_world_def)

section \<open>The list query\<close>

lemma query_desc_sorted:
  "sorted_wrt (\<lambda>a b. creationTime b \<le> creationTime a) (query_desc w)"
proof -
  have "sorted (map creationTime (sort_key creationTime (messages w)))"
    by (rule sorted_sort_key)
  then have "sorted_wrt (\<lambda>a b. creationTime a \<le> creationTime b) (sort_key creationTime (messages w))"
    by (simp add: sorted_map)
  then show ?thesis
    by (simp add: query_desc_def sorted_wrt_rev)
qed

lemma query_desc_set [simp]: "set (query_desc w) = set (messages w)"
  by (simp add: query_desc_def)

lemma query_desc_length [simp]: "length (query_desc w) = length (messages w)"
  by (simp add: query_desc_def)

lemma take_newest:
  assumes "sorted_wrt (\<lambda>a b. f b \<le> (f a :: nat)) xs" and "m \<in> set xs" and "m \<notin> set (take n xs)"
    and "r \<in> set (take n xs)"
  shows "f m \<le> f r"
proof -
  from assms(1) have "sorted_wrt (\<lambda>a b. f b \<le> f a) (take n xs @ drop n xs)" by simp
  then have s: "\<forall>x\<in>set (take n xs). \<forall>y\<in>set (drop n xs). f y \<le> f x"
    unfolding sorted_wrt_append by blast
  from assms(2,3) have "m \<in> set (drop n xs)"
    by (metis Un_iff append_take_drop_id set_append)
  with s assms(4) show ?thesis by blast
qed

lemma crowd_messages:
  "query_desc crowd =
     map (\<lambda>i. \<lparr>doc_id = i, creationTime = 100 + i, content = js ''hello'', authorId = None,
               authorName = Some (js ''Anonymous''), createdAt = None\<rparr>) (rev [0..<51])"
proof -
  let ?g = "\<lambda>i. \<lparr>doc_id = i, creationTime = 100 + i, content = js ''hello'', authorId = None,
               authorName = Some (js ''Anonymous''), createdAt = None\<rparr>"
  have "sorted (map creationTime (map ?g [0..<51]))"
    by (simp add: sorted_map sorted_wrt_iff_nth_less comp_def)
  then have "sort_key creationTime (map ?g [0..<51]) = map ?g [0..<51]"
    by (rule sort_key_id_if_sorted)
  then show ?thesis
    by (simp add: query_desc_def crowd_def rev_map)
qed

section \<open>Claims\<close>

text \<open>
  C1 (as amended). \<open>send\<close> validates the content first: a request whose trimmed content
  is empty or longer than 2000 code units ends with the validation error and leaves the
  whole state as it was, with no identity lookup and no call to the gate. A request with
  valid content looks the identity up and then calls the gate once, under the key of the
  resolved principal, before any write to the database; the bucket of that key is left
  as that one call leaves it. For a caller without a principal the key is "anonymous".
\<close>

theorem send_call_order:
  "(length (trim s) = 0 \<or> 2000 < length (trim s) \<longrightarrow>
      snd (send c s w) = w \<and>
      (fst (send c s w) = Inl (Error ''Message cannot be empty'') \<or>
       fst (send c s w) = Inl (Error ''Message too long (max 2000 characters)''))) \<and>
   (0 < length (trim s) \<and> length (trim s) \<le> 2000 \<longrightarrow>
      (\<exists>rest. calls (snd (send c s w)) =
         calls w @
         [GetAuthUser,
          Limit sendMessage (rateLimitKey (resolve c))
            (fst (limit c sendMessage (rateLimitKey (resolve c)) w))] @ rest \<and>
         (\<forall>x\<in>set rest. \<exists>i. x = DbInsert i)) \<and>
      limiter (snd (send c s w)) =
        limiter (snd (limit c sendMessage (rateLimitKey (resolve c)) w))) \<and>
   (0 < length (trim s) \<and> length (trim s) \<le> 2000 \<and> resolve c = None \<longrightarrow>
      Limit sendMessage (js ''anonymous'') (fst (limit c sendMessage (js ''anonymous'') w))
        \<in> set (calls (snd (send c s w))))"
  by (simp add: send_unfold rateLimitKey_def)

theorem send_call_order_witness:
  "0 < length (trim (js ''hello'')) \<and> length (trim (js ''hello'')) \<le> 2000 \<and>
   resolve anonymous_ctx = None \<and>
   fst (limit anonymous_ctx sendMessage (js ''anonymous'') empty_world) = Admitted \<and>
   take 2 (calls (snd (send anonymous_ctx (js ''hello'') empty_world))) =
     [GetAuthUser, Limit sendMessage (js ''anonymous'') Admitted] \<and>
   length (trim (js ''   '')) = 0 \<and>
   snd (send anonymous_ctx (js ''   '') empty_world) = empty_world"
proof -
  have l: "fst (limit anonymous_ctx sendMessage (js ''anonymous'') empty_world) = Admitted"
    by (simp add: limit_unfold)
  have r: "resolve anonymous_ctx = None"
    by (simp add: resolve_def anonymous_ctx_def)
  have k: "rateLimitKey None = js ''anonymous''"
    by (simp add: rateLimitKey_def)
  have e: "calls empty_world = []"
    by (simp add: empty_world_def)
  from send_call_order [of "js ''hello''" anonymous_ctx empty_world]
  obtain rest where "calls (snd (send anonymous_ctx (js ''hello'') empty_world)) =
      [GetAuthUser, Limit sendMessage (js ''anonymous'') Admitted] @ rest"
    by (auto simp: r k l e)
  then have t: "take 2 (calls (snd (send anonymous_ctx (js ''hello'') empty_world))) =
      [GetAuthUser, Limit sendMessage (js ''anonymous'') Admitted]"
    by simp
  from send_call_order [of "js ''   ''" anonymous_ctx empty_world]
  have b: "snd (send anonymous_ctx (js ''   '') empty_world) = empty_world"
    by simp
  from l r t b show ?thesis by simp
qed

text \<open>
  C1 as stated fails: a blank message gets its validation verdict with no call to the
  gate and no bucket touched.
\<close>

theorem send_gate_before_validation_counterexample:
  "fst (send anonymous_ctx (js ''   '') empty_world) = Inl (Error ''Message cannot be empty'') \<and>
   calls (snd (send anonymous_ctx (js ''   '') empty_world)) = [] \<and>
   limiter (snd (send anonymous_ctx (js ''   '') empty_world)) (sendMessage, js ''anonymous'') = None"
  by (simp add: send_unfold) (simp add: empty_world_def)

text \<open>
  C2. \<open>send\<close> checks the length of the trimmed content, counted in UTF-16 code units as
  \<open>.length\<close> does: it rejects with "Message cannot be empty" when the trimmed length is
  0 and with "Message too long (max 2000 characters)" when it exceeds 2000, in both cases
  leaving the state as it was; any trimmed length from 1 to 2000 passes validation, and
  once the gate admits the call the trimmed content is what is stored.
\<close>

theorem send_validation:
  "(length (trim s) = 0 \<longrightarrow> send c s w = (Inl (Error ''Message cannot be empty''), w)) \<and>
   (2000 < length (trim s) \<longrightarrow>
      send c s w = (Inl (Error ''Message too long (max 2000 characters)''), w)) \<and>
   (0 < length (trim s) \<and> length (trim s) \<le> 2000 \<longrightarrow>
      fst (send c s w) \<noteq> Inl (Error ''Message cannot be empty'') \<and>
      fst (send c s w) \<noteq> Inl (Error ''Message too long (max 2000 characters)'') \<and>
      (1 \<le> available c w sendMessage (rateLimitKey (resolve c)) \<longrightarrow>
         fst (send c s w) = Inr (nextId w) \<and>
         messages (snd (send c s w)) = messages w @
           [\<lparr>doc_id = nextId w, creationTime = now c, content = trim s,
             authorId = map_option user_id (resolve c),
             authorName = Some (authorNameOf (resolve c)), createdAt = None\<rparr>]))"
  by (simp add: send_unfold)

theorem send_validation_witness:
  "send anonymous_ctx (js ''   '') empty_world =
     (Inl (Error ''Message cannot be empty''), empty_world) \<and>
   length (trim (replicate 2001 (0x61 :: 16 word))) = 2001 \<and>
   send anonymous_ctx (replicate 2001 0x61) empty_world =
     (Inl (Error ''Message too long (max 2000 characters)''), empty_world) \<and>
   length (trim (replicate 2000 (0x61 :: 16 word))) = 2000 \<and>
   fst (send anonymous_ctx (replicate 2000 0x61) empty_world) = Inr 0 \<and>
   map content (messages (snd (send anonymous_ctx (replicate 2000 0x61) empty_world))) =
     [replicate 2000 0x61] \<and>
   trim (js ''  ok  '') = js ''ok'' \<and>
   map content (messages (snd (send anonymous_ctx (js ''  ok  '') empty_world))) = [js ''ok'']"
proof -
  have ok: "trim (js ''  ok  '') = js ''ok''"
    by (simp add: trim_def js_def isWhiteSpace_def)
  have e: "messages empty_world = []" "nextId empty_world = 0"
    by (simp_all add: empty_world_def)
  show ?thesis
    using send_validation [of "js ''   ''" anonymous_ctx empty_world]
          send_validation [of "replicate 2001 0x61" anonymous_ctx empty_world]
          send_validation [of "replicate 2000 0x61" anonymous_ctx empty_world]
          send_validation [of "js ''  ok  ''" anonymous_ctx empty_world]
    by (simp add: ok e)
qed

text \<open>
  C3. The key is a function of the resolved principal alone: "anonymous" when there is
  none, and the principal's id when there is one. The id of a principal is a document id
  issued by the platform, which is never the empty string. \<open>send\<close> calls the gate with
  exactly this key, so requests with the same resolved principal use the same key.
\<close>

theorem rateLimitKey_policy:
  "rateLimitKey None = js ''anonymous'' \<and>
   (user_id u \<noteq> [] \<longrightarrow> rateLimitKey (Some u) = user_id u) \<and>
   (0 < length (trim s) \<and> length (trim s) \<le> 2000 \<longrightarrow>
      (\<exists>v rest. calls (snd (send c s w)) =
         calls w @ [GetAuthUser, Limit sendMessage (rateLimitKey (resolve c)) v] @ rest)) \<and>
   (resolve c = resolve c' \<longrightarrow> rateLimitKey (resolve c) = rateLimitKey (resolve c'))"
  by (simp add: send_unfold rateLimitKey_def)

theorem rateLimitKey_policy_witness:
  "user_id u1 \<noteq> [] \<and> rateLimitKey (Some u1) = js ''u1'' \<and>
   0 < length (trim (js ''hello'')) \<and> length (trim (js ''hello'')) \<le> 2000 \<and>
   (\<exists>v rest. calls (snd (send (ctx_of u1 0) (js ''hello'') empty_world)) =
      calls empty_world @ [GetAuthUser, Limit sendMessage (js ''u1'') v] @ rest) \<and>
   resolve (ctx_of u1 0) = resolve (ctx_of u1 7)"
proof -
  have r: "resolve (ctx_of u1 t) = Some u1" for t
    by (simp add: resolve_def ctx_of_def)
  have i: "user_id u1 = js ''u1''"
    by (simp add: u1_def)
  show ?thesis
    using rateLimitKey_policy [of u1 "js ''hello''" "ctx_of u1 0" empty_world "ctx_of u1 7"]
    by (simp add: r i)
qed

text \<open>
  C4. A lookup that throws is folded into an absent principal: \<open>send\<close> then behaves
  exactly as if the lookup had returned null, and its only errors are the two validation
  errors. An admitted send of "hello" without a principal stores
  the content "hello" with no author id and the author name "Anonymous".
\<close>

theorem send_without_principal:
  "(auth c = Throws e \<longrightarrow> send c s w = send (c\<lparr>auth := Returns None\<rparr>) s w) \<and>
   (resolve c = None \<longrightarrow>
      (\<forall>x. fst (send c s w) = Inl x \<longrightarrow>
         x = Error ''Message cannot be empty'' \<or>
         x = Error ''Message too long (max 2000 characters)'')) \<and>
   (resolve c = None \<and> 1 \<le> available c w sendMessage (js ''anonymous'') \<longrightarrow>
      fst (send c (js ''hello'') w) = Inr (nextId w) \<and>
      messages (snd (send c (js ''hello'') w)) = messages w @
        [\<lparr>doc_id = nextId w, creationTime = now c, content = js ''hello'',
          authorId = None, authorName = Some (js ''Anonymous''), createdAt = None\<rparr>])"
proof -
  have 1: "auth c = Throws e \<longrightarrow> send c s w = send (c\<lparr>auth := Returns None\<rparr>) s w"
    by (simp add: send_unfold resolve_def)
  have 2: "resolve c = None \<longrightarrow>
      (\<forall>x. fst (send c s w) = Inl x \<longrightarrow>
         x = Error ''Message cannot be empty'' \<or>
         x = Error ''Message too long (max 2000 characters)'')"
    by (simp add: send_unfold)
  have 3: "resolve c = None \<and> 1 \<le> available c w sendMessage (js ''anonymous'') \<longrightarrow>
      fst (send c (js ''hello'') w) = Inr (nextId w) \<and>
      messages (snd (send c (js ''hello'') w)) = messages w @
        [\<lparr>doc_id = nextId w, creationTime = now c, content = js ''hello'',
          authorId = None, authorName = Some (js ''Anonymous''), createdAt = None\<rparr>]"
    by (simp add: send_unfold rateLimitKey_def authorNameOf_def)
  from 1 2 3 show ?thesis by blast
qed

theorem send_without_principal_witness:
  "auth failing_auth_ctx = Throws (Error ''Unauthenticated'') \<and>
   resolve failing_auth_ctx = None \<and>
   1 \<le> available failing_auth_ctx empty_world sendMessage (js ''anonymous'') \<and>
   send failing_auth_ctx (js ''hello'') empty_world =
     send (failing_auth_ctx\<lparr>auth := Returns None\<rparr>) (js ''hello'') empty_world \<and>
   fst (send failing_auth_ctx (js ''hello'') empty_world) = Inr 0 \<and>
   messages (snd (send failing_auth_ctx (js ''hello'') empty_world)) =
     [\<lparr>doc_id = 0, creationTime = 0, content = js ''hello'',
       authorId = None, authorName = Some (js ''Anonymous''), createdAt = None\<rparr>]"
proof -
  have r: "resolve failing_auth_ctx = None" "auth failing_auth_ctx = Throws (Error ''Unauthenticated'')"
      "now failing_auth_ctx = 0"
    by (simp_all add: resolve_def failing_auth_ctx_def)
  have e: "messages empty_world = []" "nextId empty_world = 0"
    by (simp_all add: empty_world_def)
  show ?thesis
    using send_without_principal [of failing_auth_ctx "Error ''Unauthenticated''" "js ''hello''" empty_world]
    by (simp add: r e send_unfold resolve_def rateLimitKey_def authorNameOf_def)
qed

text \<open>
  C5. The claim fails for \<open>send\<close> at the gate: the handler does not look at the gate's
  verdict. At a moment when the bucket of u1 is empty the gate rejects the call, yet
  \<open>send\<close> returns a new id and the message is in the table.
\<close>

theorem send_inserts_after_rejection:
  "fst (limit (ctx_of u1 0) sendMessage (js ''u1'') drained) = Rejected 6000 \<and>
   fst (send (ctx_of u1 0) (js ''hello'') drained) = Inr 15 \<and>
   messages (snd (send (ctx_of u1 0) (js ''hello'') drained)) =
     [\<lparr>doc_id = 15, creationTime = 0, content = js ''hello'', authorId = Some (js ''u1''),
       authorName = Some (js ''Ada''), createdAt = None\<rparr>] \<and>
   calls (snd (send (ctx_of u1 0) (js ''hello'') drained)) =
     [GetAuthUser, Limit sendMessage (js ''u1'') (Rejected 6000), DbInsert 15]"
proof -
  have a: "available (ctx_of u1 0) drained sendMessage (js ''u1'') = 0"
    by (simp add: available_def bucket_of_def refill_def drained_def ctx_of_def)
  then have l: "fst (limit (ctx_of u1 0) sendMessage (js ''u1'') drained) = Rejected 6000"
    by (simp add: limit_unfold retryAfter_def)
  have r: "resolve (ctx_of u1 0) = Some u1" "now (ctx_of u1 0) = 0"
    by (simp_all add: resolve_def ctx_of_def)
  have k: "rateLimitKey (resolve (ctx_of u1 0)) = js ''u1''"
    "map_option user_id (resolve (ctx_of u1 0)) = Some (js ''u1'')"
    "authorNameOf (resolve (ctx_of u1 0)) = js ''Ada''"
    unfolding r by (simp, simp_all add: authorNameOf_def u1_def)
  have d: "messages drained = []" "nextId drained = 15" "calls drained = []"
    by (simp_all add: drained_def)
  show ?thesis
    by (simp add: send_unfold k r(2) l d)
qed

text \<open>
  C6. The quota table handed to the rate limiter is the table of the specification, row
  by row, every entry is a token bucket, the seven names are all the names there are, and
  for every name the capacity is at least the rate.
\<close>

theorem RATE_LIMIT_DEFS_table:
  "map (\<lambda>n. (n, kind (RATE_LIMIT_DEFS n), rate (RATE_LIMIT_DEFS n), period (RATE_LIMIT_DEFS n),
               capacity (RATE_LIMIT_DEFS n))) RateLimitNames =
     [(sendMessage, token_bucket, 10, 60000, 15),
      (uploadFile, token_bucket, 5, 60000, 10),
      (deleteFile, token_bucket, 20, 60000, 25),
      (apiCall, token_bucket, 60, 60000, 80),
      (loginAttempt, token_bucket, 5, 60000, 5),
      (registerUser, token_bucket, 3, 3600000, 3),
      (sendEmail, token_bucket, 10, 3600000, 10)] \<and>
   name \<in> set RateLimitNames \<and>
   rate (RATE_LIMIT_DEFS name) \<le> capacity (RATE_LIMIT_DEFS name)"
  by (cases name) (simp_all add: RateLimitNames_def)

text \<open>
  C9. \<open>setAdminByEmail\<close> writes nothing, whoever calls it: with an email that contains
  "@" it returns success, the email, the action and the instruction string, and only logs
  a line to the console; with any other email it fails with "Invalid email address". In
  both cases the messages table, the id counter and the rate limiter's buckets are
  unchanged.
\<close>

theorem setAdminByEmail_no_write:
  "(0x40 \<in> set e \<longrightarrow>
      fst (setAdminByEmail c e b w) =
        Inr \<lparr>success = True, email = e,
             action = (if b then js ''grant'' else js ''revoke''),
             instruction = instruction_for e b\<rparr>) \<and>
   (0x40 \<notin> set e \<longrightarrow> setAdminByEmail c e b w = (Inl (Error ''Invalid email address''), w)) \<and>
   messages (snd (setAdminByEmail c e b w)) = messages w \<and>
   nextId (snd (setAdminByEmail c e b w)) = nextId w \<and>
   limiter (snd (setAdminByEmail c e b w)) = limiter w \<and>
   filter (\<lambda>x. case x of ConsoleLog l \<Rightarrow> False | _ \<Rightarrow> True) (calls (snd (setAdminByEmail c e b w))) =
     filter (\<lambda>x. case x of ConsoleLog l \<Rightarrow> False | _ \<Rightarrow> True) (calls w)"
  by (auto simp: setAdminByEmail_def includes_at logCall_def Let_def)

theorem setAdminByEmail_no_write_witness:
  "0x40 \<in> set (js ''eve@example.com'') \<and>
   fst (setAdminByEmail anonymous_ctx (js ''eve@example.com'') True board) =
     Inr \<lparr>success = True, email = js ''eve@example.com'', action = js ''grant'',
          instruction = js ''Add '' @ [0x22] @ js ''eve@example.com'' @ [0x22] @
                        js '' to ADMIN_EMAILS in convex/lib/config.ts''\<rparr> \<and>
   messages (snd (setAdminByEmail anonymous_ctx (js ''eve@example.com'') True board)) =
     messages board \<and>
   0x40 \<notin> set (js ''nobody'') \<and>
   setAdminByEmail anonymous_ctx (js ''nobody'') True board =
     (Inl (Error ''Invalid email address''), board)"
proof -
  have a: "0x40 \<in> set (js ''eve@example.com'')" "0x40 \<notin> set (js ''nobody'')"
    by (simp_all add: js_def)
  show ?thesis
    using setAdminByEmail_no_write [of "js ''eve@example.com''" anonymous_ctx True board]
          setAdminByEmail_no_write [of "js ''nobody''" anonymous_ctx True board]
    by (simp add: a instruction_for_def)
qed

text \<open>
  C7 (as amended). Eleven sends of valid content by one authenticated user, whatever the
  times of the calls, starting from a full sendMessage bucket, are all admitted by the
  gate and all succeed: the bucket holds 15 tokens, so the eleventh call still finds one.
\<close>

theorem eleven_sends_admitted:
  "length rs = 11 \<Longrightarrow>
   \<forall>(c, s)\<in>set rs. resolve c = Some u \<and> 0 < length (trim s) \<and> length (trim s) \<le> 2000 \<Longrightarrow>
   bucket_full w sendMessage (rateLimitKey (Some u)) \<Longrightarrow>
   fst (send_all rs w) = map Inr [nextId w ..< nextId w + 11] \<and>
   verdicts (calls (snd (send_all rs w))) = verdicts (calls w) @ replicate 11 Admitted"
proof -
  assume l: "length rs = 11"
    and a: "\<forall>(c, s)\<in>set rs. resolve c = Some u \<and> 0 < length (trim s) \<and> length (trim s) \<le> 2000"
    and f: "bucket_full w sendMessage (rateLimitKey (Some u))"
  from a have a': "\<forall>(c, s)\<in>set rs. rateLimitKey (resolve c) = rateLimitKey (Some u) \<and>
      0 < length (trim s) \<and> length (trim s) \<le> 2000"
    by auto
  from a have a'': "\<forall>(c, s)\<in>set rs. 0 < length (trim s) \<and> length (trim s) \<le> 2000"
    by auto
  from reserve_full [OF f] l
  have "of_nat (length rs) \<le> reserve w sendMessage (rateLimitKey (Some u))" by simp
  from send_all_within_reserve [OF a' this] send_all_ids [OF a'', of w] l show ?thesis by simp
qed

theorem eleven_sends_admitted_witness:
  "length eleven_sends = 11 \<and>
   map (\<lambda>(c, s). (resolve c, now c, s)) eleven_sends =
     map (\<lambda>i. (Some u1, i * 5000, js ''hello'')) [0 ..< 11] \<and>
   bucket_full empty_world sendMessage (rateLimitKey (Some u1)) \<and>
   fst (send_all eleven_sends empty_world) = map Inr [0 ..< 11] \<and>
   verdicts (calls (snd (send_all eleven_sends empty_world))) = replicate 11 Admitted"
proof -
  have l: "length eleven_sends = 11"
    by (simp add: eleven_sends_def)
  have a: "\<forall>(c, s)\<in>set eleven_sends.
      resolve c = Some u1 \<and> 0 < length (trim s) \<and> length (trim s) \<le> 2000"
    by (auto simp: eleven_sends_def resolve_def ctx_of_def)
  have f: "bucket_full empty_world sendMessage (rateLimitKey (Some u1))"
    by (simp add: bucket_full_def empty_world_def)
  have m: "map (\<lambda>(c, s). (resolve c, now c, s)) eleven_sends =
     map (\<lambda>i. (Some u1, i * 5000, js ''hello'')) [0 ..< 11]"
    by (simp add: eleven_sends_def resolve_def ctx_of_def comp_def)
  have n: "nextId empty_world = 0" "calls empty_world = []"
    by (simp_all add: empty_world_def)
  from eleven_sends_admitted [OF l a f] l m f n show ?thesis
    by simp
qed

text \<open>
  C7 as stated fails: of eleven sends by u1 within 50 seconds, from a fresh bucket, the
  eleventh is admitted by the gate and stores a message.
\<close>

theorem eleventh_send_counterexample:
  "map (now \<circ> fst) eleven_sends =
     [0, 5000, 10000, 15000, 20000, 25000, 30000, 35000, 40000, 45000, 50000] \<and>
   set (map (resolve \<circ> fst) eleven_sends) = {Some u1} \<and>
   verdicts (calls (snd (send_all eleven_sends empty_world))) ! 10 = Admitted \<and>
   fst (send_all eleven_sends empty_world) ! 10 = Inr 10"
proof -
  have "of_nat (length eleven_sends) \<le> reserve empty_world sendMessage (js ''u1'')"
    by (simp add: eleven_sends_def)
  from send_all_within_reserve [OF eleven_sends_ok this]
  have "verdicts (calls (snd (send_all eleven_sends empty_world))) = replicate 11 Admitted"
    by (simp add: eleven_sends_def empty_world_def)
  then have 1: "verdicts (calls (snd (send_all eleven_sends empty_world))) ! 10 = Admitted"
    by simp
  have "\<forall>(c, s)\<in>set eleven_sends. 0 < length (trim s) \<and> length (trim s) \<le> 2000"
    using eleven_sends_ok by auto
  from send_all_ids [OF this, of empty_world]
  have "fst (send_all eleven_sends empty_world) = map Inr [0 ..< 11]"
    by (simp add: eleven_sends_def empty_world_def)
  moreover have "map Inr [0 ..< 11] ! 10 = (Inr 10 :: error + msg_id)"
    by (simp only: nth_map length_upt nth_upt) simp
  ultimately have 2: "fst (send_all eleven_sends empty_world) ! 10 = Inr 10" by simp
  have 3: "map (now \<circ> fst) eleven_sends =
     [0, 5000, 10000, 15000, 20000, 25000, 30000, 35000, 40000, 45000, 50000]"
    by (simp add: eleven_sends_def ctx_of_def upt_rec)
  have 4: "set (map (resolve \<circ> fst) eleven_sends) = {Some u1}"
    by (simp add: eleven_sends_def ctx_of_def resolve_def upt_rec)
  from 1 2 3 4 show ?thesis by simp
qed

text \<open>
  C8. At the gate the claim holds: sixteen calls at one instant on a full sendMessage
  bucket get fifteen admissions and then a rejection, to retry after 6000 milliseconds.
  For \<open>send\<close> it fails: of sixteen immediate sends the gate rejects the sixteenth, but the
  handler does not look at the verdict, and the sixteenth send returns an id and stores
  its message like the fifteen before it.
\<close>

theorem sixteenth_send_not_rejected:
  "fst (limit_times 16 (ctx_of u1 0) sendMessage (js ''u1'') empty_world) =
     replicate 15 Admitted @ [Rejected 6000] \<and>
   verdicts (calls (snd (send_all (replicate 16 (ctx_of u1 0, js ''hello'')) empty_world))) =
     replicate 15 Admitted @ [Rejected 6000] \<and>
   fst (send_all (replicate 16 (ctx_of u1 0, js ''hello'')) empty_world) = map Inr [0 ..< 16] \<and>
   length (messages (snd (send_all (replicate 16 (ctx_of u1 0, js ''hello'')) empty_world))) = 16"
proof -
  let ?c = "ctx_of u1 0"
  have k: "rateLimitKey (resolve ?c) = js ''u1''"
    by (simp add: resolve_def ctx_of_def)
  have a: "available ?c empty_world sendMessage (js ''u1'') = of_nat 15"
    by simp
  have h: "0 < length (trim (js ''hello''))" "length (trim (js ''hello'')) \<le> 2000"
    by simp_all
  have e: "nextId empty_world = 0" "calls empty_world = []" "messages empty_world = []"
    by (simp_all add: empty_world_def)
  from limit_times_exact [OF a]
  have 1: "fst (limit_times 16 ?c sendMessage (js ''u1'') empty_world) =
      replicate 15 Admitted @ [Rejected 6000]"
    by (simp add: retryAfter_def)
  from a have "available ?c empty_world sendMessage (rateLimitKey (resolve ?c)) = of_nat 15"
    by (simp only: k)
  from send_all_burst [OF h this]
  have 2: "verdicts (calls (snd (send_all (replicate 16 (?c, js ''hello'')) empty_world))) =
      replicate 15 Admitted @ [Rejected 6000]"
    by (simp add: e)
  have "\<forall>(c, s)\<in>set (replicate 16 (?c, js ''hello'')).
      0 < length (trim s) \<and> length (trim s) \<le> 2000"
    by simp
  from send_all_ids [OF this, of empty_world]
  have 3: "fst (send_all (replicate 16 (?c, js ''hello'')) empty_world) = map Inr [0 ..< 16]"
    and 4: "length (messages (snd (send_all (replicate 16 (?c, js ''hello'')) empty_world))) = 16"
    by (simp_all add: e)
  from 1 2 3 4 show ?thesis by simp
qed

text \<open>
  C10. The \<open>list\<close> query changes nothing and does not depend on the caller. It returns
  min(50, n) of the n stored messages, ordered by creation time with the newest first,
  and every stored message it leaves out is no newer than any message it returns.
\<close>

theorem list_newest_50:
  "snd (list c w) = w \<and>
   list c' w = list c w \<and>
   length (fst (list c w)) = min 50 (length (messages w)) \<and>
   sorted_wrt (\<lambda>a b. creationTime b \<le> creationTime a) (fst (list c w)) \<and>
   set (fst (list c w)) \<subseteq> set (messages w) \<and>
   (\<forall>m\<in>set (messages w). m \<notin> set (fst (list c w)) \<longrightarrow>
      (\<forall>r\<in>set (fst (list c w)). creationTime m \<le> creationTime r))"
proof -
  have 1: "sorted_wrt (\<lambda>a b. creationTime b \<le> creationTime a) (take 50 (query_desc w))"
    using query_desc_sorted by (rule sorted_wrt_take)
  have 2: "set (take 50 (query_desc w)) \<subseteq> set (messages w)"
    using set_take_subset [of 50 "query_desc w"] by simp
  have 3: "creationTime m \<le> creationTime r"
    if "m \<in> set (messages w)" "m \<notin> set (take 50 (query_desc w))"
       "r \<in> set (take 50 (query_desc w))" for m r
    using query_desc_sorted [of w] that
    by (intro take_newest [where f = creationTime and xs = "query_desc w" and n = 50]) simp_all
  from 1 2 3 show ?thesis
    by (simp add: list_def min.commute)
qed

theorem list_newest_50_witness:
  "length (messages crowd) = 51 \<and>
   hd (messages crowd) \<in> set (messages crowd) \<and>
   hd (messages crowd) \<notin> set (fst (list anonymous_ctx crowd)) \<and>
   length (fst (list anonymous_ctx crowd)) = 50 \<and>
   map doc_id (fst (list anonymous_ctx crowd)) = rev [1..<51] \<and>
   snd (list anonymous_ctx crowd) = crowd"
proof -
  have l: "length (messages crowd) = 51"
    by (simp add: crowd_def)
  have r: "rev [0..<51] = rev [1..<51] @ [0]"
    by (simp add: upt_rec [of 0])
  have t: "fst (list anonymous_ctx crowd) =
     map (\<lambda>i. \<lparr>doc_id = i, creationTime = 100 + i, content = js ''hello'', authorId = None,
               authorName = Some (js ''Anonymous''), createdAt = None\<rparr>) (rev [1..<51])"
    by (simp add: list_def crowd_messages r)
  have h: "hd (messages crowd) =
     \<lparr>doc_id = 0, creationTime = 100, content = js ''hello'', authorId = None,
      authorName = Some (js ''Anonymous''), createdAt = None\<rparr>"
    by (simp add: crowd_def upt_rec [of 0])
  have i: "hd (messages crowd) \<in> set (messages crowd)"
    by (rule hd_in_set) (simp add: crowd_def)
  have o: "hd (messages crowd) \<notin> set (fst (list anonymous_ctx crowd))"
    unfolding t h by auto
  have d: "map doc_id (fst (list anonymous_ctx crowd)) = rev [1..<51]"
    unfolding t by (simp add: comp_def)
  show ?thesis
    using list_newest_50 [of anonymous_ctx crowd anonymous_ctx] l i o d
    by simp
qed

end
